theory Spec2Isabelle
  imports Complex_Main "HOL-Library.Sublist" "HOL-Library.AList"
begin

section \<open>Inventory management front end: data model\<close>

text \<open>
  The repository is a small inventory application. Its client-side scripts are embedded
  here: the products page script (\<^verbatim>\<open>src/unnamed/part_000\<close>), the API wrapper
  (\<^verbatim>\<open>src/unnamed/part_001\<close>), \<^verbatim>\<open>static/js/products.js\<close> and the reports script
  (second half of \<^verbatim>\<open>static/js/dashboard.js\<close>).

  JavaScript numbers that hold counts, page numbers and stock quantities are integers
  far below \<open>2^53\<close> and are modelled as \<open>int\<close>. A product record holds the values as
  the JSON response writes them: the price is the decimal number written there. Where the
  code computes with a price, the number is first read as the nearest double
  (\<open>json_number\<close>) and the arithmetic is that of doubles (\<open>number_mul\<close>, \<open>number_add\<close>).
\<close>

record product =
  product_id :: int
  sku :: string
  name :: string
  category :: string
  price :: rat
  stock_quantity :: int
  description :: "string option"

subsection \<open>Numbers as text\<close>

text \<open>
  A template literal or \<^verbatim>\<open>Array.prototype.join\<close> turns an integer number into its
  decimal digits, with a leading minus sign when negative.
\<close>

definition digit_char :: "nat \<Rightarrow> char" where
  "digit_char d = ''0123456789'' ! d"

fun nat_digits :: "nat \<Rightarrow> string" where
  "nat_digits n =
     (if n < 10 then [digit_char n] else nat_digits (n div 10) @ [digit_char (n mod 10)])"

declare nat_digits.simps [simp del]

definition number_toString :: "int \<Rightarrow> string" where
  "number_toString i =
     (if i < 0 then CHR ''-'' # nat_digits (nat (- i)) else nat_digits (nat i))"

text \<open>
  \<^verbatim>\<open>Math.ceil(a / b)\<close> for an integer \<open>a\<close> and a positive integer \<open>b\<close>. For array
  lengths the double division is exact enough that the ceiling is the integer ceiling.
\<close>

definition math_ceil_div :: "int \<Rightarrow> int \<Rightarrow> int" where
  "math_ceil_div a b = - ((- a) div b)"

text \<open>
  \<^verbatim>\<open>Array.prototype.slice(start, end)\<close> as ECMAScript defines it: a negative index
  counts from the end, both indices are clamped to the array, and an empty range gives
  the empty array.
\<close>

definition array_slice :: "'a list \<Rightarrow> int \<Rightarrow> int \<Rightarrow> 'a list" where
  "array_slice xs start end =
     (let len = int (length xs);
          k = (if start < 0 then max (len + start) 0 else min start len);
          final = (if end < 0 then max (len + end) 0 else min end len)
      in take (nat (max (final - k) 0)) (drop (nat k) xs))"

section \<open>Stock status classification\<close>

text \<open>The products page script, \<^verbatim>\<open>getStatusBadge\<close>.\<close>

definition getStatusBadge :: "int \<Rightarrow> string" where
  "getStatusBadge stockQuantity =
     (if stockQuantity = 0 then ''<span class=\"status out-of-stock\">Out of Stock</span>''
      else if stockQuantity \<le> 10 then ''<span class=\"status low-stock\">Low Stock</span>''
      else ''<span class=\"status in-stock\">In Stock</span>'')"

text \<open>\<^verbatim>\<open>static/js/products.js\<close>, \<^verbatim>\<open>getStatusClass\<close> and \<^verbatim>\<open>getStatusText\<close>.\<close>

definition getStatusClass :: "int \<Rightarrow> string" where
  "getStatusClass stock =
     (if stock = 0 then ''out-of-stock''
      else if stock < 10 then ''low-stock''
      else ''in-stock'')"

definition getStatusText :: "int \<Rightarrow> string" where
  "getStatusText stock =
     (if stock = 0 then ''Out of Stock''
      else if stock < 10 then ''Low Stock''
      else ''In Stock'')"

text \<open>The reports script has its own copy of \<^verbatim>\<open>getStatusText\<close>.\<close>

definition getStatusText_reports :: "int \<Rightarrow> string" where
  "getStatusText_reports stock =
     (if stock = 0 then ''Out of Stock''
      else if stock < 10 then ''Low Stock''
      else ''In Stock'')"

text \<open>
  The markup a badge has for a given class and label, used to compare the badge of the
  products page script with the class and text of the other copies.
\<close>

definition status_badge_markup :: "string \<Rightarrow> string \<Rightarrow> string" where
  "status_badge_markup cls label =
     ''<span class=\"status '' @ cls @ ''\">'' @ label @ ''</span>''"

section \<open>Client-side pagination in static/js/products.js\<close>

definition productsPerPage :: int where
  "productsPerPage = 10"

text \<open>
  One table row as \<^verbatim>\<open>renderProductsTable\<close> builds it. The row keeps the values
  interpolated into the markup; the price is the number handed to \<^verbatim>\<open>formatPrice\<close>.
\<close>

record table_row =
  row_product_id :: int
  row_sku :: string
  row_name :: string
  row_category :: string
  row_price :: rat
  row_stock :: int
  row_status_class :: string
  row_status_text :: string

definition render_row :: "product \<Rightarrow> table_row" where
  "render_row p =
     \<lparr> row_product_id = product_id p, row_sku = sku p, row_name = name p,
       row_category = category p, row_price = price p, row_stock = stock_quantity p,
       row_status_class = getStatusClass (stock_quantity p),
       row_status_text = getStatusText (stock_quantity p) \<rparr>"

text \<open>
  A click handler installed by \<^verbatim>\<open>updatePagination\<close>: \<open>ChangePageBy d\<close> stands for
  \<^verbatim>\<open>() => changePage(currentPage + d)\<close>, which reads \<^verbatim>\<open>currentPage\<close> when clicked.
\<close>

datatype handler = ChangePageBy int

record button =
  disabled :: bool
  onclick :: "handler option"

text \<open>
  The module state and the elements the script looks up with \<^verbatim>\<open>querySelector\<close>.
  An element is \<open>None\<close> when the selector finds nothing.
\<close>

record products_page =
  currentProducts :: "product list"
  currentPage :: int
  tbody :: "table_row list option"
  pageInfo :: "string option"
  prevBtn :: "button option"
  nextBtn :: "button option"

definition pageProducts :: "int \<Rightarrow> product list \<Rightarrow> product list" where
  "pageProducts page products =
     (let startIndex = (page - 1) * productsPerPage;
          endIndex = startIndex + productsPerPage
      in array_slice products startIndex endIndex)"

definition renderProductsTable :: "products_page \<Rightarrow> product list \<Rightarrow> products_page" where
  "renderProductsTable st products =
     (case tbody st of
        None \<Rightarrow> st
      | Some _ \<Rightarrow> st\<lparr>tbody := Some (map render_row (pageProducts (currentPage st) products))\<rparr>)"

definition updatePagination :: "products_page \<Rightarrow> int \<Rightarrow> products_page" where
  "updatePagination st totalProducts =
     (let totalPages = math_ceil_div totalProducts productsPerPage;
          st1 = (case pageInfo st of
                   None \<Rightarrow> st
                 | Some _ \<Rightarrow> st\<lparr>pageInfo := Some (''Page '' @ number_toString (currentPage st)
                                     @ '' of '' @ number_toString totalPages)\<rparr>);
          st2 = (case prevBtn st1 of
                   None \<Rightarrow> st1
                 | Some b \<Rightarrow> st1\<lparr>prevBtn := Some (b\<lparr>disabled := (currentPage st1 = 1),
                                     onclick := Some (ChangePageBy (- 1))\<rparr>)\<rparr>);
          st3 = (case nextBtn st2 of
                   None \<Rightarrow> st2
                 | Some b \<Rightarrow> st2\<lparr>nextBtn := Some (b\<lparr>disabled := (currentPage st2 = totalPages),
                                     onclick := Some (ChangePageBy 1)\<rparr>)\<rparr>)
      in st3)"

definition changePage :: "products_page \<Rightarrow> int \<Rightarrow> products_page" where
  "changePage st page =
     (let st1 = st\<lparr>currentPage := page\<rparr>;
          st2 = renderProductsTable st1 (currentProducts st1)
      in updatePagination st2 (int (length (currentProducts st2))))"

text \<open>The rows a table body shows; none when the element is missing.\<close>

definition rows_of :: "products_page \<Rightarrow> table_row list" where
  "rows_of st = (case tbody st of None \<Rightarrow> [] | Some rows \<Rightarrow> rows)"

text \<open>A page with every element present, nothing loaded, on page 1.\<close>

definition initial_page :: products_page where
  "initial_page =
     \<lparr> currentProducts = [], currentPage = 1, tbody = Some [], pageInfo = Some [],
       prevBtn = Some \<lparr>disabled = False, onclick = None\<rparr>,
       nextBtn = Some \<lparr>disabled = False, onclick = None\<rparr> \<rparr>"

text \<open>Twelve products, enough for two pages, used to run the functions on concrete input.\<close>

definition sample_product :: "int \<Rightarrow> product" where
  "sample_product i =
     \<lparr> product_id = i, sku = ''SKU'' @ number_toString i, name = ''Item'',
       category = ''Supplies'', price = 5 / 2, stock_quantity = i, description = None \<rparr>"

definition sample_products :: "product list" where
  "sample_products = map sample_product [1..12]"

section \<open>Request parameters\<close>

text \<open>
  A plain JavaScript object with string keys, in insertion order, and a
  \<^verbatim>\<open>URLSearchParams\<close> list of name-value pairs.
\<close>

type_synonym js_object = "(string \<times> string) list"
type_synonym url_search_params = "(string \<times> string) list"

text \<open>
  The module variable \<^verbatim>\<open>currentFilters\<close> of the products page script. Its three keys
  are created in this order and only ever assigned to.
\<close>

definition currentFilters_with :: "string \<Rightarrow> string \<Rightarrow> string \<Rightarrow> js_object" where
  "currentFilters_with s c t = [(''search'', s), (''category'', c), (''status'', t)]"

text \<open>
  Object spread \<^verbatim>\<open>{...base, ...obj}\<close>: a key already present keeps its place and
  takes the new value, a new key goes to the end.
\<close>

definition object_spread :: "js_object \<Rightarrow> js_object \<Rightarrow> js_object" where
  "object_spread base obj = fold (\<lambda>(k, v). AList.update k v) obj base"

text \<open>\<^verbatim>\<open>URLSearchParams.prototype.delete(name)\<close> removes every pair with that name.\<close>

definition params_delete :: "string \<Rightarrow> url_search_params \<Rightarrow> url_search_params" where
  "params_delete key params = filter (\<lambda>(k, v). k \<noteq> key) params"

text \<open>
  The loop under the comment \<^verbatim>\<open>// Remove empty filters\<close> in \<^verbatim>\<open>loadProducts\<close>:
  \<^verbatim>\<open>for (const [key, value] of params.entries()) { if (!value) params.delete(key); }\<close>.
  The iterator of a \<^verbatim>\<open>URLSearchParams\<close> keeps an index into the live list: each step
  reads the pair at the index in the list as it is then, and moves the index on by one.
  The values are strings, so \<^verbatim>\<open>!value\<close> holds exactly for the empty string.
\<close>

function remove_empty_filters :: "nat \<Rightarrow> url_search_params \<Rightarrow> url_search_params" where
  "remove_empty_filters i params =
     (if i < length params then
        (case params ! i of
           (key, value) \<Rightarrow>
             if value = [] then remove_empty_filters (Suc i) (params_delete key params)
             else remove_empty_filters (Suc i) params)
      else params)"
  by pat_completeness auto
termination
proof (relation "measure (\<lambda>(i, params). length params - i)")
  show "wf (measure (\<lambda>(i, params). length params - i))" by simp
next
  fix i :: nat and params :: url_search_params and x key "value"
  assume "i < length params"
  moreover have "length (params_delete key params) \<le> length params"
    by (simp add: params_delete_def)
  ultimately show "((Suc i, params_delete key params), (i, params))
      \<in> measure (\<lambda>(i, params). length params - i)"
    by simp
next
  fix i :: nat and params :: url_search_params
  assume "i < length params"
  then show "((Suc i, params), (i, params)) \<in> measure (\<lambda>(i, params). length params - i)"
    by simp
qed

text \<open>
  The parameters \<^verbatim>\<open>loadProducts(page)\<close> of the products page script sends with its
  request, as a list of pairs (the text of the query string is their serialisation).
\<close>

definition loadProducts_params :: "int \<Rightarrow> js_object \<Rightarrow> url_search_params" where
  "loadProducts_params page currentFilters =
     remove_empty_filters 0
       (object_spread [(''page'', number_toString page), (''per_page'', ''10'')] currentFilters)"

text \<open>
  \<^verbatim>\<open>InventoryAPI.getProducts(filters)\<close> of the API wrapper. A property that is missing
  or the empty string is falsy.
\<close>

definition truthy :: "string option \<Rightarrow> bool" where
  "truthy v = (case v of None \<Rightarrow> False | Some s \<Rightarrow> s \<noteq> [])"

definition getProducts_params :: "js_object \<Rightarrow> url_search_params" where
  "getProducts_params filters =
     (let p0 = [];
          p1 = (if truthy (map_of filters ''category'')
                then p0 @ [(''category'', the (map_of filters ''category''))] else p0);
          p2 = (if truthy (map_of filters ''search'')
                then p1 @ [(''search'', the (map_of filters ''search''))] else p1);
          p3 = (if truthy (map_of filters ''status'')
                then p2 @ [(''status'', the (map_of filters ''status''))] else p2)
      in p3)"

subsection \<open>Double-precision numbers\<close>

text \<open>
  The Number values of JavaScript (IEEE 754 binary64): a finite value is kept as the
  rational it denotes. The sign of a zero is not kept; it decides nothing in a product or
  a sum except the sign of a zero result.
\<close>

datatype js_number = Finite rat | PosInfinity | NegInfinity | NaN

text \<open>Powers of two with an integer exponent.\<close>

definition pow2 :: "int \<Rightarrow> rat" where
  "pow2 e = (if 0 \<le> e then 2 ^ nat e else 1 / 2 ^ nat (- e))"

text \<open>
  \<open>ilog2 n\<close> is the largest \<open>k\<close> with \<open>2^k \<le> n\<close>, for \<open>n \<ge> 1\<close>, and \<open>floor_log2 x\<close> the
  largest integer \<open>k\<close> with \<open>2^k \<le> x\<close>, for a positive rational \<open>x\<close>.
\<close>

function ilog2 :: "int \<Rightarrow> int" where
  "ilog2 n = (if n < 2 then 0 else 1 + ilog2 (n div 2))"
  by pat_completeness auto
termination
  by (relation "measure nat") auto

declare ilog2.simps [simp del]

definition floor_log2 :: "rat \<Rightarrow> int" where
  "floor_log2 x =
     (if 1 \<le> x then ilog2 \<lfloor>x\<rfloor>
      else - (1 + ilog2 (\<lceil>1 / x\<rceil> - 1)))"

text \<open>Rounding to the nearest integer, a tie going to the even one.\<close>

definition round_half_even :: "rat \<Rightarrow> int" where
  "round_half_even y =
     (let f = \<lfloor>y\<rfloor>; d = y - of_int f
      in if d < 1 / 2 then f
         else if 1 / 2 < d then f + 1
         else if even f then f else f + 1)"

text \<open>
  Rounding a rational to the nearest double, ties to even: the significand has 53 bits,
  the spacing of the doubles never goes below \<open>2^-1074\<close> (subnormal numbers), and a
  result of magnitude \<open>2^1024\<close> or more is an infinity.
\<close>

definition round_to_double :: "rat \<Rightarrow> js_number" where
  "round_to_double x =
     (if x = 0 then Finite 0
      else
        let e = max (floor_log2 \<bar>x\<bar> - 52) (- 1074);
            m = round_half_even (\<bar>x\<bar> / pow2 e);
            v = of_int m * pow2 e
        in if pow2 1024 \<le> v then (if 0 < x then PosInfinity else NegInfinity)
           else Finite (sgn x * v))"

text \<open>
  The product and the sum of two numbers (the operators \<^verbatim>\<open>*\<close> and \<^verbatim>\<open>+\<close> on numbers):
  the exact result, rounded; the special values follow IEEE 754.
\<close>

fun number_mul :: "js_number \<Rightarrow> js_number \<Rightarrow> js_number" where
  "number_mul NaN _ = NaN"
| "number_mul _ NaN = NaN"
| "number_mul (Finite a) (Finite b) = round_to_double (a * b)"
| "number_mul (Finite a) PosInfinity =
     (if a = 0 then NaN else if 0 < a then PosInfinity else NegInfinity)"
| "number_mul (Finite a) NegInfinity =
     (if a = 0 then NaN else if 0 < a then NegInfinity else PosInfinity)"
| "number_mul PosInfinity (Finite b) =
     (if b = 0 then NaN else if 0 < b then PosInfinity else NegInfinity)"
| "number_mul NegInfinity (Finite b) =
     (if b = 0 then NaN else if 0 < b then NegInfinity else PosInfinity)"
| "number_mul PosInfinity PosInfinity = PosInfinity"
| "number_mul PosInfinity NegInfinity = NegInfinity"
| "number_mul NegInfinity PosInfinity = NegInfinity"
| "number_mul NegInfinity NegInfinity = PosInfinity"

fun number_add :: "js_number \<Rightarrow> js_number \<Rightarrow> js_number" where
  "number_add NaN _ = NaN"
| "number_add _ NaN = NaN"
| "number_add (Finite a) (Finite b) = round_to_double (a + b)"
| "number_add (Finite a) PosInfinity = PosInfinity"
| "number_add (Finite a) NegInfinity = NegInfinity"
| "number_add PosInfinity (Finite b) = PosInfinity"
| "number_add NegInfinity (Finite b) = NegInfinity"
| "number_add PosInfinity PosInfinity = PosInfinity"
| "number_add PosInfinity NegInfinity = NaN"
| "number_add NegInfinity PosInfinity = NaN"
| "number_add NegInfinity NegInfinity = NegInfinity"

text \<open>The number that \<^verbatim>\<open>JSON.parse\<close> makes of a decimal numeral: the nearest double.\<close>

definition json_number :: "rat \<Rightarrow> js_number" where
  "json_number x = round_to_double x"

text \<open>A rational that is a double: rounding leaves it as it is.\<close>

definition representable :: "rat \<Rightarrow> bool" where
  "representable x = (round_to_double x = Finite x)"

section \<open>The reports page: total value and CSV export\<close>

text \<open>
  \<^verbatim>\<open>loadSummaryStats\<close>: the reduction that computes the total value, and the text of
  the summary card. Price and stock quantity are the numbers read from the response; the
  product and the running sum are doubles. \<^verbatim>\<open>formatPrice\<close> wraps \<^verbatim>\<open>Intl.NumberFormat\<close>
  and is a parameter.
\<close>

definition totalValue :: "product list \<Rightarrow> js_number" where
  "totalValue products =
     foldl (\<lambda>sum product.
              number_add sum
                (number_mul (json_number (price product))
                            (json_number (of_int (stock_quantity product)))))
       (Finite 0) products"

definition summary_total_value :: "(js_number \<Rightarrow> string) \<Rightarrow> product list \<Rightarrow> string" where
  "summary_total_value formatPrice products = ''KSh '' @ formatPrice (totalValue products)"

text \<open>A product priced at 0.1 with three pieces in stock.\<close>

definition tenth_item :: product where
  "tenth_item = \<lparr> product_id = 9, sku = ''GRO009'', name = ''Sweet'', category = ''Groceries'',
                  price = 1 / 10, stock_quantity = 3, description = None \<rparr>"

text \<open>\<^verbatim>\<open>Array.prototype.join\<close> on an array of strings.\<close>

fun array_join :: "string \<Rightarrow> string list \<Rightarrow> string" where
  "array_join sep [] = []"
| "array_join sep [x] = x"
| "array_join sep (x # y # ys) = x @ sep @ array_join sep (y # ys)"

text \<open>
  \<^verbatim>\<open>exportData\<close>: the CSV text. The price is a number that \<^verbatim>\<open>join\<close> turns into
  text; that conversion is the parameter \<open>price_text\<close>. The stock quantity is an integer.
\<close>

definition export_headers :: "string list" where
  "export_headers = [''SKU'', ''Name'', ''Category'', ''Price (KSh)'', ''Stock Quantity'', ''Status'']"

definition export_row :: "(rat \<Rightarrow> string) \<Rightarrow> product \<Rightarrow> string" where
  "export_row price_text product =
     array_join '',''
       [sku product,
        [CHR 0x22] @ name product @ [CHR 0x22],
        category product,
        price_text (price product),
        number_toString (stock_quantity product),
        getStatusText_reports (stock_quantity product)]"

definition csvContent :: "(rat \<Rightarrow> string) \<Rightarrow> product list \<Rightarrow> string" where
  "csvContent price_text products =
     array_join [CHR 0x0A]
       (array_join '','' export_headers # map (export_row price_text) products)"

subsection \<open>Reading the CSV text back\<close>

text \<open>
  What a reader of the exported file sees, in the usual CSV convention: rows are
  separated by line feeds and fields by commas; a field that opens with a double quote
  runs to the closing double quote and may contain commas; inside it two double quotes
  in a row stand for one double quote character. The enclosing quotes are not part of
  the field.
\<close>

fun split_on :: "char \<Rightarrow> string \<Rightarrow> string \<Rightarrow> string list" where
  "split_on sep cur [] = [rev cur]"
| "split_on sep cur (c # cs) =
     (if c = sep then rev cur # split_on sep [] cs else split_on sep (c # cur) cs)"

definition csv_rows :: "string \<Rightarrow> string list" where
  "csv_rows text = split_on (CHR 0x0A) [] text"

fun csv_scan :: "bool \<Rightarrow> string \<Rightarrow> string \<Rightarrow> string list" where
  "csv_scan quoted cur [] = [rev cur]"
| "csv_scan True cur (c # cs) =
     (if c = CHR 0x22 then
        (case cs of
           [] \<Rightarrow> csv_scan False cur cs
         | c' # cs' \<Rightarrow>
             if c' = CHR 0x22 then csv_scan True (CHR 0x22 # cur) cs'
             else csv_scan False cur cs)
      else csv_scan True (c # cur) cs)"
| "csv_scan False cur (c # cs) =
     (if c = CHR '','' then rev cur # csv_scan False [] cs
      else if c = CHR 0x22 \<and> cur = [] then csv_scan True cur cs
      else csv_scan False (c # cur) cs)"

definition csv_fields :: "string \<Rightarrow> string list" where
  "csv_fields row = csv_scan False [] row"

definition csv_column :: "nat \<Rightarrow> string \<Rightarrow> string option" where
  "csv_column n row =
     (let fields = csv_fields row in if n < length fields then Some (fields ! n) else None)"

text \<open>A field value that needs no quoting: no line feed, no comma, no double quote.\<close>

definition plain_field :: "string \<Rightarrow> bool" where
  "plain_field s = (CHR 0x0A \<notin> set s \<and> CHR '','' \<notin> set s \<and> CHR 0x22 \<notin> set s)"

text \<open>
  The text of a price that is a whole number: its decimal digits. It stands in for the
  number-to-text conversion when the export is run on concrete products.
\<close>

definition whole_price_text :: "rat \<Rightarrow> string" where
  "whole_price_text p = number_toString \<lfloor>p\<rfloor>"

text \<open>A product whose name ends in a double quote (a ruler of 12 inches).\<close>

definition ruler :: product where
  "ruler = \<lparr> product_id = 7, sku = ''SUP007'', name = ''Ruler 12'' @ [CHR 0x22],
             category = ''Supplies'', price = 150, stock_quantity = 40, description = None \<rparr>"

section \<open>The listing operation of the server\<close>

text \<open>
  Modelled from the spec: the listing operation behind \<^verbatim>\<open>GET /api/products\<close> lives in
  \<^verbatim>\<open>backend/app.py\<close>, which is not among the sources. The model follows the filter
  semantics of the specification: each supplied (non-empty) filter narrows the result;
  the search text is looked for, ignoring case, in name, sku and description; category
  is compared for equality; status is compared with the status derived from the stock
  quantity.
\<close>

record query_filters =
  filter_search :: string
  filter_category :: string
  filter_status :: string

definition toLowerCase_char :: "char \<Rightarrow> char" where
  "toLowerCase_char c =
     (case map_of (zip ''ABCDEFGHIJKLMNOPQRSTUVWXYZ'' ''abcdefghijklmnopqrstuvwxyz'') c of
        None \<Rightarrow> c
      | Some l \<Rightarrow> l)"

definition toLowerCase :: "string \<Rightarrow> string" where
  "toLowerCase s = map toLowerCase_char s"

text \<open>Modelled from the spec: the derived stock status, as the table of the data model.\<close>

definition stock_status :: "int \<Rightarrow> string" where
  "stock_status q =
     (if q = 0 then ''out-of-stock'' else if q \<le> 9 then ''low-stock'' else ''in-stock'')"

text \<open>Modelled from the spec: does the text occur in \<open>s\<close>, ignoring case.\<close>

fun occurs_in :: "string \<Rightarrow> string \<Rightarrow> bool" where
  "occurs_in t [] = (t = [])"
| "occurs_in t (c # cs) = (prefix t (c # cs) \<or> occurs_in t cs)"

definition search_matches :: "string \<Rightarrow> product \<Rightarrow> bool" where
  "search_matches text p =
     (let t = toLowerCase text
      in occurs_in t (toLowerCase (name p))
         \<or> occurs_in t (toLowerCase (sku p))
         \<or> (case description p of None \<Rightarrow> False | Some d \<Rightarrow> occurs_in t (toLowerCase d)))"

text \<open>
  Modelled from the spec: the listing, one narrowing step per supplied filter. The result
  is the whole matching set in store order, before it is cut into pages.
\<close>

definition list_products :: "query_filters \<Rightarrow> product list \<Rightarrow> product list" where
  "list_products f store =
     (let q0 = store;
          q1 = (if filter_search f \<noteq> [] then filter (search_matches (filter_search f)) q0 else q0);
          q2 = (if filter_category f \<noteq> []
                then filter (\<lambda>p. category p = filter_category f) q1 else q1);
          q3 = (if filter_status f \<noteq> []
                then filter (\<lambda>p. stock_status (stock_quantity p) = filter_status f) q2 else q2)
      in q3)"

text \<open>The three seeded products of the specification's example scenario.\<close>

definition seed_A1 :: product where
  "seed_A1 = \<lparr> product_id = 1, sku = ''A1'', name = ''Phone'', category = ''Electronics'',
               price = 100, stock_quantity = 0, description = None \<rparr>"

definition seed_A2 :: product where
  "seed_A2 = \<lparr> product_id = 2, sku = ''A2'', name = ''Paper'', category = ''Supplies'',
               price = 25, stock_quantity = 5, description = Some ''White A4 Sheets'' \<rparr>"

definition seed_A3 :: product where
  "seed_A3 = \<lparr> product_id = 3, sku = ''A3'', name = ''Laptop, 15 inch'', category = ''Electronics'',
               price = 900, stock_quantity = 50, description = Some ''With paper manual'' \<rparr>"

section \<open>Properties of the status classification\<close>

lemma getStatusClass_table:
  "getStatusClass q =
     (if q = 0 then ''out-of-stock'' else if q < 10 then ''low-stock'' else ''in-stock'')"
  by (simp add: getStatusClass_def)

lemma getStatusText_copies_agree: "getStatusText_reports q = getStatusText q"
  by (simp add: getStatusText_reports_def getStatusText_def)

lemma getStatusBadge_agrees_except_10:
  "q \<noteq> 10 \<Longrightarrow> getStatusBadge q = status_badge_markup (getStatusClass q) (getStatusText q)"
  by (simp add: getStatusBadge_def status_badge_markup_def getStatusClass_def getStatusText_def)

text \<open>
  C1: the status is out-of-stock at 0, low-stock from 1 to 9 and in-stock from 10 on, in
  every client-side classification function. \<^verbatim>\<open>getStatusClass\<close> and both copies of
  \<^verbatim>\<open>getStatusText\<close> follow this table, but \<^verbatim>\<open>getStatusBadge\<close> compares with
  \<^verbatim>\<open><= 10\<close>: at the boundary value 10 it yields the low-stock badge.
\<close>

theorem getStatusBadge_boundary_10:
  "getStatusBadge 10 = ''<span class=\"status low-stock\">Low Stock</span>''"
  by (simp add: getStatusBadge_def)

text \<open>
  C7: the duplicated classification functions agree on every non-negative quantity.
  At quantity 10 the badge of the products page script is the low-stock one while
  \<^verbatim>\<open>getStatusClass\<close> and both copies of \<^verbatim>\<open>getStatusText\<close> say in-stock.
\<close>

theorem status_copies_differ_at_10:
  "getStatusBadge 10 = status_badge_markup ''low-stock'' ''Low Stock''
   \<and> getStatusClass 10 = ''in-stock''
   \<and> getStatusText 10 = ''In Stock''
   \<and> getStatusText_reports 10 = ''In Stock''"
  by (simp add: getStatusBadge_def status_badge_markup_def getStatusClass_def
      getStatusText_def getStatusText_reports_def)

section \<open>Properties of the pagination\<close>

lemma array_slice_nonneg:
  "0 \<le> s \<Longrightarrow> s \<le> e \<Longrightarrow> array_slice xs s e = take (nat (e - s)) (drop (nat s) xs)"
  by (auto simp: array_slice_def Let_def min_def max_def)

lemma pageProducts_take_drop:
  "1 \<le> page \<Longrightarrow> pageProducts page xs = take 10 (drop (10 * nat (page - 1)) xs)"
proof -
  assume p: "1 \<le> page"
  have n: "nat ((page - 1) * 10) = 10 * nat (page - 1)" using p by (simp add: nat_mult_distrib)
  have "array_slice xs ((page - 1) * 10) ((page - 1) * 10 + 10)
          = take (nat ((page - 1) * 10 + 10 - (page - 1) * 10)) (drop (nat ((page - 1) * 10)) xs)"
    using p by (intro array_slice_nonneg) auto
  moreover have "nat (page * 10 - 10) = 10 * nat (page - 1)" using n by (simp add: algebra_simps)
  ultimately show ?thesis
    by (simp add: pageProducts_def Let_def productsPerPage_def)
qed

lemma concat_chunks:
  "concat (map (\<lambda>i. take m (drop (m * i) xs)) [0..<k]) = take (m * k) xs"
proof (induction k)
  case 0
  show ?case by simp
next
  case (Suc k)
  have "take (m * Suc k) xs = take (m * k) xs @ take m (drop (m * k) xs)"
    using take_add[of "m * k" m xs] by (simp add: add.commute)
  with Suc show ?case by simp
qed

lemma upto_as_upt: "[1..int k] = map (\<lambda>i. int i + 1) [0..<k]"
proof (induction k)
  case 0
  show ?case by simp
next
  case (Suc k)
  have "[1..int (Suc k)] = [1..int k] @ [int k + 1]"
    using upto_rec2[of 1 "int (Suc k)"] by (simp add: add.commute)
  with Suc show ?case by simp
qed

lemma math_ceil_div_10: "0 \<le> n \<Longrightarrow> 0 \<le> math_ceil_div n 10 \<and> n \<le> 10 * math_ceil_div n 10"
  unfolding math_ceil_div_def by presburger

lemma pages_concat:
  "concat (map (\<lambda>p. pageProducts p xs) [1..math_ceil_div (int (length xs)) productsPerPage]) = xs"
proof -
  define k where "k = nat (math_ceil_div (int (length xs)) 10)"
  have k: "math_ceil_div (int (length xs)) 10 = int k" and len: "length xs \<le> 10 * k"
    using math_ceil_div_10[of "int (length xs)"] by (auto simp: k_def)
  have "map (\<lambda>p. pageProducts p xs) [1..int k] = map (\<lambda>i. take 10 (drop (10 * i) xs)) [0..<k]"
    by (simp add: upto_as_upt pageProducts_take_drop o_def)
  then have "concat (map (\<lambda>p. pageProducts p xs) [1..int k]) = take (10 * k) xs"
    by (simp add: concat_chunks)
  with len show ?thesis by (simp add: k productsPerPage_def)
qed

lemma pageProducts_beyond:
  "math_ceil_div (int (length xs)) productsPerPage < page \<Longrightarrow> pageProducts page xs = []"
proof -
  assume a: "math_ceil_div (int (length xs)) productsPerPage < page"
  have b: "0 \<le> math_ceil_div (int (length xs)) 10 \<and> int (length xs) \<le> 10 * math_ceil_div (int (length xs)) 10"
    by (rule math_ceil_div_10) simp
  with a have p: "1 \<le> page" and "int (length xs) \<le> 10 * (page - 1)" by (auto simp: productsPerPage_def)
  then have "length xs \<le> 10 * nat (page - 1)" by (simp add: nat_le_iff nat_mult_distrib)
  with p show ?thesis by (simp add: pageProducts_take_drop)
qed

lemma length_sample_products: "length sample_products = 12"
  by (simp add: sample_products_def)

text \<open>
  C2: with 10 products per page, the slices that \<^verbatim>\<open>renderProductsTable\<close> shows on the
  pages 1 to \<open>ceil(length / 10)\<close>, put one after the other, are exactly the product
  list: nothing twice, nothing left out, in the order of the list. The first conjunct is
  about the slices, the second about the rows rendered from them when the table body
  exists.
\<close>

theorem page_slices_concat_to_list:
  "concat (map (\<lambda>p. pageProducts p products)
       [1..math_ceil_div (int (length products)) productsPerPage]) = products
   \<and> (tbody st \<noteq> None \<longrightarrow>
        concat (map (\<lambda>p. rows_of (renderProductsTable (st\<lparr>currentPage := p\<rparr>) products))
          [1..math_ceil_div (int (length products)) productsPerPage]) = map render_row products)"
proof (intro conjI impI)
  show c: "concat (map (\<lambda>p. pageProducts p products)
       [1..math_ceil_div (int (length products)) productsPerPage]) = products"
    by (rule pages_concat)
  assume "tbody st \<noteq> None"
  then have r: "rows_of (renderProductsTable (st\<lparr>currentPage := p\<rparr>) products)
                 = map render_row (pageProducts p products)" for p
    by (auto simp: renderProductsTable_def rows_of_def)
  have "concat (map (\<lambda>p. map render_row (pageProducts p products))
          [1..math_ceil_div (int (length products)) productsPerPage])
        = map render_row (concat (map (\<lambda>p. pageProducts p products)
            [1..math_ceil_div (int (length products)) productsPerPage]))"
    by (simp add: map_concat o_def)
  with c r show "concat (map (\<lambda>p. rows_of (renderProductsTable (st\<lparr>currentPage := p\<rparr>) products))
          [1..math_ceil_div (int (length products)) productsPerPage]) = map render_row products"
    by simp
qed

text \<open>Two pages of the twelve sample products.\<close>

theorem page_slices_concat_to_list_witness:
  "tbody initial_page \<noteq> None
   \<and> math_ceil_div (int (length sample_products)) productsPerPage = 2
   \<and> concat (map (\<lambda>p. rows_of (renderProductsTable (initial_page\<lparr>currentPage := p\<rparr>) sample_products))
          [1..2]) = map render_row sample_products"
proof -
  have t: "tbody initial_page \<noteq> None" by (simp add: initial_page_def)
  have n: "math_ceil_div (int (length sample_products)) productsPerPage = 2"
    by (simp add: length_sample_products math_ceil_div_def productsPerPage_def)
  from page_slices_concat_to_list[of sample_products initial_page] t n
  show ?thesis by simp
qed

text \<open>
  C6: on a page number beyond the last page \<^verbatim>\<open>renderProductsTable\<close> renders no rows.
  The function has no failing branch: the slice of an array beyond its end is the empty
  array, and the table body is set to no rows.
\<close>

theorem page_beyond_last_is_empty:
  "math_ceil_div (int (length products)) productsPerPage < currentPage st \<Longrightarrow>
   tbody st = Some old \<Longrightarrow>
   tbody (renderProductsTable st products) = Some [] \<and> rows_of (renderProductsTable st products) = []"
  by (simp add: renderProductsTable_def rows_of_def pageProducts_beyond)

text \<open>Page 3 of the twelve sample products, which fill two pages.\<close>

theorem page_beyond_last_is_empty_witness:
  "math_ceil_div (int (length sample_products)) productsPerPage < currentPage (initial_page\<lparr>currentPage := 3\<rparr>)
   \<and> tbody (initial_page\<lparr>currentPage := 3\<rparr>) = Some []
   \<and> tbody (renderProductsTable (initial_page\<lparr>currentPage := 3\<rparr>) sample_products) = Some []"
proof -
  have a: "math_ceil_div (int (length sample_products)) productsPerPage < currentPage (initial_page\<lparr>currentPage := 3\<rparr>)"
    by (simp add: length_sample_products math_ceil_div_def productsPerPage_def)
  have b: "tbody (initial_page\<lparr>currentPage := 3\<rparr>) = Some []" by (simp add: initial_page_def)
  from page_beyond_last_is_empty[OF a b] a b show ?thesis by simp
qed

text \<open>
  C4: \<^verbatim>\<open>updatePagination\<close> enables the next control exactly when the current page is
  below the number of pages. The code disables it only when the current page \<^emph>\<open>equals\<close>
  the number of pages. With no products there are 0 pages, and on page 1 the next
  control stays enabled although \<open>1 < 0\<close> is false.
\<close>

theorem updatePagination_next_enabled_on_empty:
  "map_option disabled (nextBtn (updatePagination initial_page 0)) = Some False
   \<and> math_ceil_div 0 productsPerPage = 0
   \<and> currentPage (updatePagination initial_page 0) = 1"
  by (simp add: updatePagination_def initial_page_def math_ceil_div_def productsPerPage_def Let_def)

text \<open>
  C5, as stated: with no matching products the page indicator never reads
  \<^verbatim>\<open>Page 1 of 0\<close>. On a page with nothing loaded it reads exactly that.
\<close>

theorem page_indicator_reads_1_of_0:
  "pageInfo (updatePagination initial_page 0) = Some ''Page 1 of 0''"
  by (simp add: updatePagination_def initial_page_def math_ceil_div_def productsPerPage_def Let_def
      number_toString_def digit_char_def nat_digits.simps)

lemma number_toString_0: "number_toString 0 = ''0''"
  by (simp add: number_toString_def digit_char_def nat_digits.simps)

text \<open>
  C5, amended: with no matching products \<^verbatim>\<open>updatePagination\<close> computes 0 pages and
  shows that number as it is: the page indicator, when the element exists, reads
  \<^verbatim>\<open>Page <current page> of 0\<close>.
\<close>

theorem page_indicator_shows_zero_pages:
  "pageInfo st = Some old \<Longrightarrow>
   math_ceil_div 0 productsPerPage = 0
   \<and> pageInfo (updatePagination st 0) = Some (''Page '' @ number_toString (currentPage st) @ '' of 0'')"
  by (auto simp: updatePagination_def math_ceil_div_def productsPerPage_def Let_def
      number_toString_0 split: option.splits)

text \<open>The page with nothing loaded.\<close>

theorem page_indicator_shows_zero_pages_witness:
  "pageInfo initial_page = Some []
   \<and> pageInfo (updatePagination initial_page 0) = Some (''Page '' @ number_toString (currentPage initial_page) @ '' of 0'')"
proof -
  have a: "pageInfo initial_page = Some []" by (simp add: initial_page_def)
  from page_indicator_shows_zero_pages[OF a] a show ?thesis by simp
qed

text \<open>
  While the current page lies between 1 and the number of pages, the controls are as
  the pagination contract says.
\<close>

lemma updatePagination_controls_in_range:
  "prevBtn st = Some pb \<Longrightarrow> nextBtn st = Some nb \<Longrightarrow> 1 \<le> currentPage st \<Longrightarrow>
   currentPage st \<le> math_ceil_div totalProducts productsPerPage \<Longrightarrow>
   (map_option disabled (prevBtn (updatePagination st totalProducts)) = Some (\<not> 1 < currentPage st))
   \<and> (map_option disabled (nextBtn (updatePagination st totalProducts))
        = Some (\<not> currentPage st < math_ceil_div totalProducts productsPerPage))"
  by (auto simp: updatePagination_def Let_def split: option.splits)

section \<open>Properties of the request parameters\<close>

lemma object_spread_filters:
  "object_spread [(''page'', pg), (''per_page'', ''10'')] (currentFilters_with s c t)
     = [(''page'', pg), (''per_page'', ''10''), (''search'', s), (''category'', c), (''status'', t)]"
  by (simp add: object_spread_def currentFilters_with_def)

text \<open>
  C3: the query that \<^verbatim>\<open>loadProducts\<close> builds omits every parameter whose value is
  empty. The loop that removes empty parameters deletes from the list it is iterating
  over, so the pair that follows a deleted one is skipped. With all three filters empty
  (the state in which the page loads) \<^verbatim>\<open>search\<close> is deleted, \<^verbatim>\<open>category\<close> is skipped,
  \<^verbatim>\<open>status\<close> is deleted, and the request carries \<^verbatim>\<open>category=\<close> with an empty value.
\<close>

theorem loadProducts_keeps_empty_category:
  "loadProducts_params 1 (currentFilters_with [] [] [])
     = [(''page'', ''1''), (''per_page'', ''10''), (''category'', [])]"
  by (simp add: loadProducts_params_def object_spread_filters params_delete_def
      number_toString_def nat_digits.simps digit_char_def)

text \<open>\<^verbatim>\<open>InventoryAPI.getProducts\<close> does omit every empty or missing filter.\<close>

lemma getProducts_params_nonempty:
  "(k, v) \<in> set (getProducts_params filters) \<Longrightarrow> v \<noteq> []"
  by (auto simp: getProducts_params_def Let_def truthy_def split: if_splits option.splits)

lemma getProducts_params_keys:
  "(k, v) \<in> set (getProducts_params filters) \<Longrightarrow> map_of filters k = Some v"
  by (auto simp: getProducts_params_def Let_def truthy_def split: if_splits option.splits)

section \<open>Properties of the reports page\<close>

subsection \<open>Rounding to a double\<close>

lemma ilog2_bounds:
  "1 \<le> n \<Longrightarrow> 0 \<le> ilog2 n \<and> 2 ^ nat (ilog2 n) \<le> n \<and> n < 2 * 2 ^ nat (ilog2 n)"
proof (induction n rule: ilog2.induct)
  case (1 n)
  show ?case
  proof (cases "n < 2")
    case True
    with 1 show ?thesis by (simp add: ilog2.simps[of n])
  next
    case False
    then have h: "1 \<le> n div 2" by simp
    from 1(1)[OF False h]
    have ih: "0 \<le> ilog2 (n div 2)" "2 ^ nat (ilog2 (n div 2)) \<le> n div 2"
      "n div 2 < 2 * 2 ^ nat (ilog2 (n div 2))" by simp_all
    have e: "ilog2 n = 1 + ilog2 (n div 2)" using False by (simp add: ilog2.simps[of n])
    have p: "(2::int) ^ nat (1 + ilog2 (n div 2)) = 2 * 2 ^ nat (ilog2 (n div 2))"
      using ih(1) by (simp add: nat_add_distrib)
    from ih(2) have "2 * 2 ^ nat (ilog2 (n div 2)) \<le> n" by linarith
    moreover from ih(3) have "n < 2 * (2 * 2 ^ nat (ilog2 (n div 2)))" by linarith
    ultimately show ?thesis using ih(1) unfolding e p by simp
  qed
qed

lemma round_half_even_of_int: "round_half_even (of_int k) = k"
  by (simp add: round_half_even_def)

lemma pow2_pos: "0 < pow2 e"
  by (simp add: pow2_def)

lemma round_to_double_exact:
  assumes "0 < x" and "x / pow2 (max (floor_log2 x - 52) (- 1074)) = of_int k" and "x < pow2 1024"
  shows "round_to_double x = Finite x"
proof -
  let ?e = "max (floor_log2 x - 52) (- 1074)"
  have ne: "pow2 ?e \<noteq> 0" using pow2_pos[of ?e] by simp
  have v: "of_int k * pow2 ?e = x" using assms(2) ne by (simp add: field_simps)
  have a: "\<bar>x\<bar> = x" using assms(1) by simp
  show ?thesis
    using assms(1,3)
    unfolding round_to_double_def Let_def a assms(2) round_half_even_of_int v
    by simp
qed

lemma round_to_double_int:
  assumes "0 \<le> n" and "n \<le> 2 ^ 53"
  shows "round_to_double (of_int n) = Finite (of_int n)"
proof (cases "n = 0")
  case True
  then show ?thesis by (simp add: round_to_double_def)
next
  case False
  with assms have n1: "1 \<le> n" by simp
  define L where "L = ilog2 n"
  from ilog2_bounds[OF n1] have L0: "0 \<le> L" and lo: "2 ^ nat L \<le> n" by (simp_all add: L_def)
  have fl: "floor_log2 (of_int n) = L" using n1 by (simp add: floor_log2_def L_def)
  have L53: "L \<le> 53"
  proof (rule ccontr)
    assume "\<not> L \<le> 53"
    then have "54 \<le> nat L" by simp
    then have "(2::int) ^ 54 \<le> 2 ^ nat L" by (intro power_increasing) simp_all
    with lo assms(2) show False by simp
  qed
  have e: "max (floor_log2 (of_int n) - 52) (- 1074) = L - 52" using L0 by (simp add: fl)
  have "\<exists>k. (of_int n :: rat) / pow2 (L - 52) = of_int k"
  proof (cases "L \<le> 52")
    case True
    then have "pow2 (L - 52) = (if L = 52 then 1 else 1 / 2 ^ nat (52 - L))"
      by (simp add: pow2_def)
    then have "(of_int n :: rat) / pow2 (L - 52) = of_int (n * 2 ^ nat (52 - L))"
      by (simp split: if_splits)
    then show ?thesis by blast
  next
    case False
    with L53 have L: "L = 53" by simp
    then have "(2::int) ^ 53 \<le> n" using lo by simp
    with assms(2) have n: "n = 2 ^ 53" by simp
    have "(of_int n :: rat) / pow2 (L - 52) = of_int (2 ^ 52)"
      by (simp add: L n pow2_def)
    then show ?thesis by blast
  qed
  then obtain k where k: "(of_int n :: rat) / pow2 (max (floor_log2 (of_int n) - 52) (- 1074)) = of_int k"
    unfolding e by blast
  have "(of_int n :: rat) \<le> 2 ^ 53" using assms(2) by (metis of_int_le_iff of_int_numeral of_int_power)
  also have "\<dots> < pow2 1024" by (simp add: pow2_def)
  finally have lt: "(of_int n :: rat) < pow2 1024" .
  have pos: "(0::rat) < of_int n" using n1 by simp
  show ?thesis by (rule round_to_double_exact[OF pos k lt])
qed

lemma floor_numeral_quotient:
  "\<lfloor>numeral a / numeral b :: rat\<rfloor> = numeral a div numeral b"
  using floor_divide_of_int_eq[of "numeral a" "numeral b", where ?'a = rat] by simp

lemma pow2_powi: "pow2 e = 2 powi e"
  by (simp add: pow2_def power_int_def inverse_eq_divide power_one_over)

lemma pow2_diff: "pow2 (a - b) = pow2 a / pow2 b"
  by (simp add: pow2_powi power_int_diff)

lemma pow2_52: "pow2 52 = 2 ^ 52"
  by (simp add: pow2_def)

lemma round_to_double_at:
  assumes "0 < x" and "floor_log2 x = L" and "- 1022 \<le> L"
    and "round_half_even (x * 2 ^ 52 / pow2 L) = m"
    and "of_int m * pow2 L / 2 ^ 52 < pow2 1024"
  shows "round_to_double x = Finite (of_int m * pow2 L / 2 ^ 52)"
proof -
  have e: "max (floor_log2 x - 52) (- 1074) = L - 52" using assms(2,3) by simp
  have p: "pow2 (L - 52) = pow2 L / 2 ^ 52"
    by (simp only: pow2_diff pow2_52)
  have a: "\<bar>x\<bar> = x" using assms(1) by simp
  have q: "x / (pow2 L / 2 ^ 52) = x * 2 ^ 52 / pow2 L" by simp
  have v: "of_int m * (pow2 L / 2 ^ 52) = of_int m * pow2 L / 2 ^ 52" by simp
  have "round_to_double x =
      (if pow2 1024 \<le> of_int m * pow2 L / 2 ^ 52 then (if 0 < x then PosInfinity else NegInfinity)
       else Finite (sgn x * (of_int m * pow2 L / 2 ^ 52)))"
    using assms(1)
    apply (simp only: round_to_double_def Let_def a)
    apply (simp only: e)
    apply (simp only: p q assms(4) v)
    apply simp
    done
  with assms(1,5) show ?thesis by simp
qed

lemma ilog2_9: "ilog2 9 = 3"
  by (simp add: ilog2.simps)

lemma floor_log2_tenth: "floor_log2 (1 / 10) = - 4"
  by (simp add: floor_log2_def ilog2_9)

lemma tenth_parsed: "json_number (1 / 10) = Finite (3602879701896397 / 2 ^ 55)"
proof -
  have r: "round_half_even ((1 / 10) * 2 ^ 52 / pow2 (- 4)) = 7205759403792794"
    by (simp add: pow2_def round_half_even_def Let_def floor_numeral_quotient)
  have "round_to_double (1 / 10) = Finite (of_int 7205759403792794 * pow2 (- 4) / 2 ^ 52)"
    by (rule round_to_double_at[OF _ floor_log2_tenth _ r]) (simp_all add: pow2_def)
  then show ?thesis by (simp add: json_number_def pow2_def)
qed


lemma ceiling_numeral_quotient:
  "\<lceil>numeral a / numeral b :: rat\<rceil> = - ((- numeral a) div numeral b)"
proof -
  have "\<lfloor>of_int (- numeral a) / of_int (numeral b) :: rat\<rfloor> = (- numeral a) div numeral b"
    by (rule floor_divide_of_int_eq)
  then show ?thesis by (simp add: ceiling_def)
qed

lemma ilog2_3: "ilog2 3 = 1"
  by (simp add: ilog2.simps)

lemma floor_log2_product: "floor_log2 (10808639105689191 / 2 ^ 55) = - 2"
  by (simp add: floor_log2_def ceiling_numeral_quotient ilog2_3)

lemma floor_log2_rounded: "floor_log2 (5404319552844596 / 2 ^ 54) = - 2"
  by (simp add: floor_log2_def ceiling_numeral_quotient ilog2_3)

lemma three_parsed: "json_number 3 = Finite 3"
  using round_to_double_int[of 3] by (simp add: json_number_def)

lemma tenth_times_three:
  "number_mul (Finite (3602879701896397 / 2 ^ 55)) (Finite 3) = Finite (5404319552844596 / 2 ^ 54)"
proof -
  have r: "round_half_even ((10808639105689191 / 2 ^ 55) * 2 ^ 52 / pow2 (- 2)) = 5404319552844596"
    by (simp add: pow2_def round_half_even_def Let_def floor_numeral_quotient)
  have "round_to_double (10808639105689191 / 2 ^ 55)
          = Finite (of_int 5404319552844596 * pow2 (- 2) / 2 ^ 52)"
    by (rule round_to_double_at[OF _ floor_log2_product _ r]) (simp_all add: pow2_def)
  then show ?thesis by (simp add: pow2_def)
qed

lemma zero_plus_rounded:
  "number_add (Finite 0) (Finite (5404319552844596 / 2 ^ 54)) = Finite (5404319552844596 / 2 ^ 54)"
proof -
  have r: "round_half_even ((5404319552844596 / 2 ^ 54) * 2 ^ 52 / pow2 (- 2)) = 5404319552844596"
    by (simp add: pow2_def round_half_even_def Let_def)
  have "round_to_double (5404319552844596 / 2 ^ 54)
          = Finite (of_int 5404319552844596 * pow2 (- 2) / 2 ^ 52)"
    by (rule round_to_double_at[OF _ floor_log2_rounded _ r]) (simp_all add: pow2_def)
  then show ?thesis by (simp add: pow2_def)
qed

subsection \<open>The total value\<close>

lemma totalValue_snoc:
  "totalValue (ps @ [p]) =
     number_add (totalValue ps)
       (number_mul (json_number (price p)) (json_number (of_int (stock_quantity p))))"
  by (simp add: totalValue_def)

lemma totalValue_no_rounding:
  assumes "\<forall>p\<in>set products. representable (price p)
              \<and> representable (of_int (stock_quantity p))
              \<and> representable (price p * of_int (stock_quantity p))"
    and "\<forall>k\<le>length products.
           representable (\<Sum>p\<leftarrow>take k products. price p * of_int (stock_quantity p))"
  shows "totalValue products = Finite (\<Sum>p\<leftarrow>products. price p * of_int (stock_quantity p))"
  using assms
proof (induction products rule: rev_induct)
  case Nil
  show ?case by (simp add: totalValue_def)
next
  case (snoc p ps)
  have a: "\<forall>q\<in>set ps. representable (price q) \<and> representable (of_int (stock_quantity q))
              \<and> representable (price q * of_int (stock_quantity q))"
    using snoc.prems(1) by simp
  have b: "\<forall>k\<le>length ps. representable (\<Sum>q\<leftarrow>take k ps. price q * of_int (stock_quantity q))"
  proof (intro allI impI)
    fix k assume k: "k \<le> length ps"
    then have "k \<le> length (ps @ [p])" by simp
    with snoc.prems(2) have "representable (\<Sum>q\<leftarrow>take k (ps @ [p]). price q * of_int (stock_quantity q))"
      by blast
    with k show "representable (\<Sum>q\<leftarrow>take k ps. price q * of_int (stock_quantity q))" by simp
  qed
  have ih: "totalValue ps = Finite (\<Sum>q\<leftarrow>ps. price q * of_int (stock_quantity q))"
    by (rule snoc.IH[OF a b])
  have p: "representable (price p)" "representable (of_int (stock_quantity p))"
    "representable (price p * of_int (stock_quantity p))"
    using snoc.prems(1) by simp_all
  have "representable (\<Sum>q\<leftarrow>take (length (ps @ [p])) (ps @ [p]). price q * of_int (stock_quantity q))"
    using snoc.prems(2) by blast
  then have s: "representable ((\<Sum>q\<leftarrow>ps. price q * of_int (stock_quantity q))
                     + price p * of_int (stock_quantity p))"
    by simp
  show ?case
    using p s by (simp add: totalValue_snoc ih json_number_def representable_def)
qed

lemma representable_whole:
  assumes "x \<in> \<int>" and "0 \<le> x" and "x \<le> 2 ^ 53"
  shows "representable x"
proof -
  from assms(1) obtain n where n: "x = of_int n" by (auto elim: Ints_cases)
  from assms(2) have "0 \<le> n" by (simp add: n)
  moreover have "n \<le> 2 ^ 53"
  proof -
    from assms(3) have "(of_int n :: rat) \<le> of_int (2 ^ 53)" by (simp add: n)
    then show ?thesis by (simp only: of_int_le_iff)
  qed
  ultimately show ?thesis unfolding representable_def n by (rule round_to_double_int)
qed

lemma sum_list_take_le:
  fixes f :: "'a \<Rightarrow> rat"
  assumes "\<forall>x\<in>set xs. 0 \<le> f x"
  shows "0 \<le> (\<Sum>x\<leftarrow>take k xs. f x) \<and> (\<Sum>x\<leftarrow>take k xs. f x) \<le> (\<Sum>x\<leftarrow>xs. f x)"
proof -
  have t: "0 \<le> (\<Sum>x\<leftarrow>take k xs. f x)"
    using assms by (intro sum_list_nonneg) (auto dest: in_set_takeD)
  have d: "0 \<le> (\<Sum>x\<leftarrow>drop k xs. f x)"
    using assms by (intro sum_list_nonneg) (auto dest: in_set_dropD)
  have "(\<Sum>x\<leftarrow>xs. f x) = (\<Sum>x\<leftarrow>take k xs. f x) + (\<Sum>x\<leftarrow>drop k xs. f x)"
    by (metis append_take_drop_id map_append sum_list_append)
  with t d show ?thesis by simp
qed

lemma member_le_sum_list_rat:
  fixes f :: "'a \<Rightarrow> rat"
  assumes "\<forall>x\<in>set xs. 0 \<le> f x" and "y \<in> set xs"
  shows "f y \<le> (\<Sum>x\<leftarrow>xs. f x)"
  using assms
proof (induction xs)
  case Nil
  then show ?case by simp
next
  case (Cons a xs)
  have nn: "0 \<le> (\<Sum>x\<leftarrow>xs. f x)" using Cons.prems(1) by (intro sum_list_nonneg) auto
  show ?case
  proof (cases "y = a")
    case True
    with nn show ?thesis by simp
  next
    case False
    with Cons have "f y \<le> (\<Sum>x\<leftarrow>xs. f x)" by simp
    moreover have "0 \<le> f a" using Cons.prems(1) by simp
    ultimately show ?thesis by simp
  qed
qed

lemma sum_list_Ints:
  fixes f :: "'a \<Rightarrow> rat"
  assumes "\<forall>x\<in>set xs. f x \<in> \<int>"
  shows "(\<Sum>x\<leftarrow>xs. f x) \<in> \<int>"
  using assms by (induction xs) simp_all

lemma totalValue_whole_numbers:
  assumes w: "\<forall>p\<in>set products. price p \<in> \<int> \<and> 0 \<le> price p \<and> price p \<le> 2 ^ 53
                \<and> 0 \<le> stock_quantity p \<and> stock_quantity p \<le> 2 ^ 53"
    and s: "(\<Sum>p\<leftarrow>products. price p * of_int (stock_quantity p)) \<le> 2 ^ 53"
  shows "totalValue products = Finite (\<Sum>p\<leftarrow>products. price p * of_int (stock_quantity p))"
proof (rule totalValue_no_rounding)
  let ?t = "\<lambda>p. price p * of_int (stock_quantity p)"
  have nn: "\<forall>p\<in>set products. 0 \<le> ?t p" using w by simp
  have ints: "\<forall>p\<in>set products. ?t p \<in> \<int>" using w by simp
  show "\<forall>p\<in>set products. representable (price p)
              \<and> representable (of_int (stock_quantity p))
              \<and> representable (price p * of_int (stock_quantity p))"
  proof
    fix p assume p: "p \<in> set products"
    with w have a: "price p \<in> \<int>" "0 \<le> price p" "price p \<le> 2 ^ 53"
      "0 \<le> stock_quantity p" "stock_quantity p \<le> 2 ^ 53" by simp_all
    have r1: "representable (price p)" using a(1,2,3) by (rule representable_whole)
    have "(of_int (stock_quantity p) :: rat) \<le> of_int (2 ^ 53)" using a(5) by (simp only: of_int_le_iff)
    then have r2: "representable (of_int (stock_quantity p))"
      using a(4) by (intro representable_whole) simp_all
    have "?t p \<le> (\<Sum>p\<leftarrow>products. ?t p)" using nn p by (rule member_le_sum_list_rat)
    with s have "?t p \<le> 2 ^ 53" by simp
    moreover have "?t p \<in> \<int>" using ints p by blast
    moreover have "0 \<le> ?t p" using nn p by blast
    ultimately have r3: "representable (?t p)" by (intro representable_whole)
    from r1 r2 r3 show "representable (price p) \<and> representable (of_int (stock_quantity p))
              \<and> representable (price p * of_int (stock_quantity p))" by simp
  qed
  show "\<forall>k\<le>length products. representable (\<Sum>p\<leftarrow>take k products. ?t p)"
  proof (intro allI impI)
    fix k
    have "\<forall>p\<in>set (take k products). ?t p \<in> \<int>" using ints by (auto dest: in_set_takeD)
    then have i: "(\<Sum>p\<leftarrow>take k products. ?t p) \<in> \<int>" by (rule sum_list_Ints)
    from sum_list_take_le[OF nn, of k] s
    have "0 \<le> (\<Sum>p\<leftarrow>take k products. ?t p)" "(\<Sum>p\<leftarrow>take k products. ?t p) \<le> 2 ^ 53" by simp_all
    with i show "representable (\<Sum>p\<leftarrow>take k products. ?t p)" by (intro representable_whole)
  qed
qed

text \<open>
  C9, amended: for every fetched product list, the total inventory value that the reports
  page computes is 0 for the empty list, and it equals the sum over the list of price
  times stock quantity whenever nothing is rounded on the way, that is, when every price,
  every quantity, every product of the two and every partial sum is a double; in
  particular when all prices are whole numbers, prices and quantities lie between 0 and
  \<open>2^53\<close>, and the sum is at most \<open>2^53\<close>. The summary card shows \<^verbatim>\<open>KSh\<close> followed by
  the formatted total.
\<close>

theorem totalValue_sum_when_exact:
  "totalValue [] = Finite 0
   \<and> ((\<forall>p\<in>set products. representable (price p)
            \<and> representable (of_int (stock_quantity p))
            \<and> representable (price p * of_int (stock_quantity p)))
        \<and> (\<forall>k\<le>length products.
              representable (\<Sum>p\<leftarrow>take k products. price p * of_int (stock_quantity p)))
        \<longrightarrow> totalValue products
              = Finite (\<Sum>p\<leftarrow>products. price p * of_int (stock_quantity p)))
   \<and> ((\<forall>p\<in>set products. price p \<in> \<int> \<and> 0 \<le> price p \<and> price p \<le> 2 ^ 53
            \<and> 0 \<le> stock_quantity p \<and> stock_quantity p \<le> 2 ^ 53)
        \<and> (\<Sum>p\<leftarrow>products. price p * of_int (stock_quantity p)) \<le> 2 ^ 53
        \<longrightarrow> totalValue products
              = Finite (\<Sum>p\<leftarrow>products. price p * of_int (stock_quantity p)))
   \<and> summary_total_value formatPrice products = ''KSh '' @ formatPrice (totalValue products)"
proof (intro conjI impI)
  show "totalValue [] = Finite 0" by (simp add: totalValue_def)
next
  assume "(\<forall>p\<in>set products. representable (price p)
            \<and> representable (of_int (stock_quantity p))
            \<and> representable (price p * of_int (stock_quantity p)))
        \<and> (\<forall>k\<le>length products.
              representable (\<Sum>p\<leftarrow>take k products. price p * of_int (stock_quantity p)))"
  then show "totalValue products = Finite (\<Sum>p\<leftarrow>products. price p * of_int (stock_quantity p))"
    by (intro totalValue_no_rounding) blast+
next
  assume "(\<forall>p\<in>set products. price p \<in> \<int> \<and> 0 \<le> price p \<and> price p \<le> 2 ^ 53
            \<and> 0 \<le> stock_quantity p \<and> stock_quantity p \<le> 2 ^ 53)
        \<and> (\<Sum>p\<leftarrow>products. price p * of_int (stock_quantity p)) \<le> 2 ^ 53"
  then show "totalValue products = Finite (\<Sum>p\<leftarrow>products. price p * of_int (stock_quantity p))"
    by (intro totalValue_whole_numbers) blast+
next
  show "summary_total_value formatPrice products = ''KSh '' @ formatPrice (totalValue products)"
    by (simp add: summary_total_value_def)
qed

text \<open>The three seeded products, with whole-number prices: 100 * 0 + 25 * 5 + 900 * 50.\<close>

theorem totalValue_sum_when_exact_witness:
  "totalValue [seed_A1, seed_A2, seed_A3] = Finite 45125"
proof -
  have w: "\<forall>p\<in>set [seed_A1, seed_A2, seed_A3]. price p \<in> \<int> \<and> 0 \<le> price p \<and> price p \<le> 2 ^ 53
            \<and> 0 \<le> stock_quantity p \<and> stock_quantity p \<le> 2 ^ 53"
    by (simp add: seed_A1_def seed_A2_def seed_A3_def)
  have s: "(\<Sum>p\<leftarrow>[seed_A1, seed_A2, seed_A3]. price p * of_int (stock_quantity p)) = 45125"
    by (simp add: seed_A1_def seed_A2_def seed_A3_def)
  from totalValue_sum_when_exact[of "[seed_A1, seed_A2, seed_A3]"] w s
  show ?thesis by simp
qed

text \<open>
  C9, as stated, has the total equal to the sum for every list. For the product priced at
  0.1 with three pieces the sum is 3/10, but 0.1 is read as the double
  \<open>3602879701896397 / 2^55\<close>, three times that is rounded, and the total is
  \<open>5404319552844596 / 2^54\<close>, which prints as \<^verbatim>\<open>0.30000000000000004\<close>.
\<close>

theorem totalValue_rounds_tenth:
  "price tenth_item * of_int (stock_quantity tenth_item) = 3 / 10
   \<and> totalValue [tenth_item] = Finite (5404319552844596 / 2 ^ 54)
   \<and> (5404319552844596 / 2 ^ 54 :: rat) \<noteq> 3 / 10"
proof -
  have "totalValue [tenth_item]
          = number_add (Finite 0) (number_mul (json_number (1 / 10)) (json_number 3))"
    by (simp add: totalValue_def tenth_item_def)
  also have "\<dots> = number_add (Finite 0)
                      (number_mul (Finite (3602879701896397 / 2 ^ 55)) (Finite 3))"
    by (simp only: tenth_parsed three_parsed)
  also have "\<dots> = number_add (Finite 0) (Finite (5404319552844596 / 2 ^ 54))"
    by (simp only: tenth_times_three)
  also have "\<dots> = Finite (5404319552844596 / 2 ^ 54)"
    by (rule zero_plus_rounded)
  finally have t: "totalValue [tenth_item] = Finite (5404319552844596 / 2 ^ 54)" .
  have s: "price tenth_item * of_int (stock_quantity tenth_item) = 3 / 10"
    by (simp add: tenth_item_def)
  have "(5404319552844596 / 2 ^ 54 :: rat) \<noteq> 3 / 10" by simp
  with t s show ?thesis by simp
qed

subsection \<open>The CSV export\<close>

lemma split_on_no_sep:
  "sep \<notin> set s \<Longrightarrow> split_on sep cur (s @ rest) = split_on sep (rev s @ cur) rest"
  by (induction s arbitrary: cur) auto

lemma split_on_plain: "sep \<notin> set s \<Longrightarrow> split_on sep [] s = [s]"
  using split_on_no_sep[of sep s "[]" "[]"] by simp

lemma split_on_join:
  "\<forall>x\<in>set (x0 # xs). sep \<notin> set x \<Longrightarrow> split_on sep [] (array_join [sep] (x0 # xs)) = x0 # xs"
proof (induction xs arbitrary: x0)
  case Nil
  then show ?case by (simp add: split_on_plain)
next
  case (Cons y ys)
  have "split_on sep [] (x0 @ sep # array_join [sep] (y # ys))
          = split_on sep (rev x0) (sep # array_join [sep] (y # ys))"
    using Cons.prems split_on_no_sep[of sep x0 "[]"] by simp
  also have "\<dots> = x0 # split_on sep [] (array_join [sep] (y # ys))" by simp
  also have "\<dots> = x0 # y # ys" using Cons.IH[of y] Cons.prems by simp
  finally show ?case by simp
qed

lemma csv_scan_plain:
  "CHR 0x22 \<notin> set s \<Longrightarrow> CHR '','' \<notin> set s \<Longrightarrow>
   csv_scan False cur (s @ rest) = csv_scan False (rev s @ cur) rest"
  by (induction s arbitrary: cur) auto

lemma csv_scan_quoted:
  "CHR 0x22 \<notin> set s \<Longrightarrow> csv_scan True cur (s @ rest) = csv_scan True (rev s @ cur) rest"
  by (induction s arbitrary: cur) auto

lemma csv_scan_plain_field:
  "CHR 0x22 \<notin> set s \<Longrightarrow> CHR '','' \<notin> set s \<Longrightarrow>
   csv_scan False [] (s @ CHR '','' # rest) = s # csv_scan False [] rest"
  using csv_scan_plain[of s "[]" "CHR '','' # rest"] by simp

lemma csv_scan_plain_last:
  "CHR 0x22 \<notin> set s \<Longrightarrow> CHR '','' \<notin> set s \<Longrightarrow> csv_scan False [] s = [s]"
  using csv_scan_plain[of s "[]" "[]"] by simp

lemma csv_scan_quoted_field:
  "CHR 0x22 \<notin> set s \<Longrightarrow>
   csv_scan True [] (s @ CHR 0x22 # CHR '','' # rest) = s # csv_scan False [] rest"
  using csv_scan_quoted[of s "[]" "CHR 0x22 # CHR '','' # rest"] by simp

lemma digit_char_in: "d < 10 \<Longrightarrow> digit_char d \<in> set ''0123456789''"
  unfolding digit_char_def by (rule nth_mem) simp

lemma nat_digits_chars: "set (nat_digits n) \<subseteq> set ''0123456789''"
proof (induction n rule: nat_digits.induct)
  case (1 n)
  show ?case
  proof (cases "n < 10")
    case True
    then show ?thesis using digit_char_in[of n] by (subst nat_digits.simps) simp
  next
    case False
    have "digit_char (n mod 10) \<in> set ''0123456789''" by (rule digit_char_in) simp
    with False 1 show ?thesis by (subst nat_digits.simps) simp
  qed
qed

lemma number_toString_avoids:
  assumes "c \<notin> set ''-0123456789''"
  shows "c \<notin> set (number_toString i)"
proof
  assume "c \<in> set (number_toString i)"
  then have "c = CHR ''-'' \<or> c \<in> set (nat_digits (nat (- i))) \<or> c \<in> set (nat_digits (nat i))"
    by (auto simp: number_toString_def split: if_splits)
  then have "c = CHR ''-'' \<or> c \<in> set ''0123456789''"
    using nat_digits_chars by blast
  then have "c \<in> set ''-0123456789''" by simp
  with assms show False by contradiction
qed

lemma plain_number_toString: "plain_field (number_toString i)"
  unfolding plain_field_def by (intro conjI number_toString_avoids) simp_all

lemma plain_getStatusText_reports: "plain_field (getStatusText_reports q)"
  by (simp add: plain_field_def getStatusText_reports_def)

lemma export_row_text:
  "export_row price_text p =
     sku p @ CHR '','' # CHR 0x22 # name p @ CHR 0x22 # CHR '','' # category p @ CHR '','' #
     price_text (price p) @ CHR '','' # number_toString (stock_quantity p) @ CHR '','' #
     getStatusText_reports (stock_quantity p)"
  by (simp add: export_row_def)

lemma csv_scan_open_quote:
  "CHR 0x22 \<notin> set s \<Longrightarrow>
   csv_scan False [] (CHR 0x22 # s @ CHR 0x22 # CHR '','' # rest) = s # csv_scan False [] rest"
  using csv_scan_quoted_field[of s rest] by simp

lemma csv_fields_export_row:
  assumes "plain_field (sku p)" "plain_field (category p)" "plain_field (price_text (price p))"
    and "CHR 0x22 \<notin> set (name p)"
  shows "csv_fields (export_row price_text p) =
     [sku p, name p, category p, price_text (price p), number_toString (stock_quantity p),
      getStatusText_reports (stock_quantity p)]"
proof -
  define st where "st = getStatusText_reports (stock_quantity p)"
  define n where "n = number_toString (stock_quantity p)"
  define r4 where "r4 = n @ CHR '','' # st"
  define r3 where "r3 = price_text (price p) @ CHR '','' # r4"
  define r2 where "r2 = category p @ CHR '','' # r3"
  define r1 where "r1 = CHR 0x22 # name p @ CHR 0x22 # CHR '','' # r2"
  have n: "CHR 0x22 \<notin> set n" "CHR '','' \<notin> set n"
    using plain_number_toString[of "stock_quantity p"] by (simp_all add: plain_field_def n_def)
  have s: "CHR 0x22 \<notin> set st" "CHR '','' \<notin> set st"
    using plain_getStatusText_reports[of "stock_quantity p"] by (simp_all add: plain_field_def st_def)
  have a1: "CHR 0x22 \<notin> set (sku p)" "CHR '','' \<notin> set (sku p)"
    using assms(1) by (simp_all add: plain_field_def)
  have a2: "CHR 0x22 \<notin> set (category p)" "CHR '','' \<notin> set (category p)"
    using assms(2) by (simp_all add: plain_field_def)
  have a3: "CHR 0x22 \<notin> set (price_text (price p))" "CHR '','' \<notin> set (price_text (price p))"
    using assms(3) by (simp_all add: plain_field_def)
  have "csv_scan False [] (sku p @ CHR '','' # r1) = sku p # csv_scan False [] r1"
    using a1 by (rule csv_scan_plain_field)
  also have "csv_scan False [] r1 = name p # csv_scan False [] r2"
    unfolding r1_def using assms(4) by (rule csv_scan_open_quote)
  also have "csv_scan False [] r2 = category p # csv_scan False [] r3"
    unfolding r2_def using a2 by (rule csv_scan_plain_field)
  also have "csv_scan False [] r3 = price_text (price p) # csv_scan False [] r4"
    unfolding r3_def using a3 by (rule csv_scan_plain_field)
  also have "csv_scan False [] r4 = n # csv_scan False [] st"
    unfolding r4_def using n by (rule csv_scan_plain_field)
  also have "csv_scan False [] st = [st]"
    using s by (rule csv_scan_plain_last)
  finally have "csv_scan False [] (sku p @ CHR '','' # r1) = [sku p, name p, category p, price_text (price p), n, st]" .
  moreover have "export_row price_text p = sku p @ CHR '','' # r1"
    by (simp add: export_row_text r1_def r2_def r3_def r4_def n_def st_def)
  ultimately show ?thesis
    by (simp add: csv_fields_def n_def st_def)
qed

lemma export_row_no_newline:
  assumes "plain_field (sku p)" "plain_field (category p)" "plain_field (price_text (price p))"
    and "CHR 0x0A \<notin> set (name p)"
  shows "CHR 0x0A \<notin> set (export_row price_text p)"
  using assms plain_number_toString[of "stock_quantity p"] plain_getStatusText_reports[of "stock_quantity p"]
  by (simp add: export_row_text plain_field_def)

lemma header_no_newline: "CHR 0x0A \<notin> set (array_join '','' export_headers)"
  by (simp add: export_headers_def)

lemma csv_rows_csvContent:
  assumes "\<forall>p\<in>set products. plain_field (sku p) \<and> plain_field (category p)
             \<and> plain_field (price_text (price p)) \<and> CHR 0x0A \<notin> set (name p)"
  shows "csv_rows (csvContent price_text products)
           = array_join '','' export_headers # map (export_row price_text) products"
proof -
  have "CHR 0x0A \<notin> set (export_row price_text p)" if "p \<in> set products" for p
  proof -
    from assms that have "plain_field (sku p)" "plain_field (category p)"
      "plain_field (price_text (price p))" "CHR 0x0A \<notin> set (name p)" by simp_all
    then show ?thesis by (rule export_row_no_newline)
  qed
  then have "\<forall>x\<in>set (array_join '','' export_headers # map (export_row price_text) products).
          CHR 0x0A \<notin> set x"
    using header_no_newline by auto
  then show ?thesis
    unfolding csv_rows_def csvContent_def by (rule split_on_join)
qed

text \<open>
  C10, amended: for every product list whose sku, category and price text contain no
  line feed, no comma and no double quote, and whose names contain no line feed and no
  double quote (commas are allowed in names), the CSV text of \<^verbatim>\<open>exportData\<close> reads back
  as exactly one header row followed by one row per product in list order; the sixth
  column is headed \<^verbatim>\<open>Status\<close> and holds, in each product row, \<^verbatim>\<open>getStatusText\<close> of that
  product's stock quantity.
\<close>

theorem csv_export_rows_and_status:
  assumes "\<forall>p\<in>set products. plain_field (sku p) \<and> plain_field (category p)
             \<and> plain_field (price_text (price p))
             \<and> CHR 0x0A \<notin> set (name p) \<and> CHR 0x22 \<notin> set (name p)"
  shows "csv_rows (csvContent price_text products)
           = array_join '','' export_headers # map (export_row price_text) products
         \<and> length (csv_rows (csvContent price_text products)) = 1 + length products
         \<and> csv_column 5 (csv_rows (csvContent price_text products) ! 0) = Some ''Status''
         \<and> (\<forall>i<length products.
               csv_column 5 (csv_rows (csvContent price_text products) ! Suc i)
                 = Some (getStatusText_reports (stock_quantity (products ! i))))"
proof -
  have rows: "csv_rows (csvContent price_text products)
           = array_join '','' export_headers # map (export_row price_text) products"
    using assms by (intro csv_rows_csvContent) simp
  have hdr: "csv_column 5 (array_join '','' export_headers) = Some ''Status''"
    by (simp add: csv_column_def csv_fields_def export_headers_def)
  have col: "csv_column 5 (export_row price_text (products ! i))
               = Some (getStatusText_reports (stock_quantity (products ! i)))"
    if "i < length products" for i
  proof -
    from that have "products ! i \<in> set products" by simp
    with assms have "csv_fields (export_row price_text (products ! i)) =
       [sku (products ! i), name (products ! i), category (products ! i),
        price_text (price (products ! i)), number_toString (stock_quantity (products ! i)),
        getStatusText_reports (stock_quantity (products ! i))]"
      by (intro csv_fields_export_row) simp_all
    then show ?thesis by (simp add: csv_column_def)
  qed
  show ?thesis using rows hdr col by simp
qed

text \<open>
  C10, as stated, asks only for the absence of line feeds and of commas outside the
  name. The name is written between double quotes but a double quote inside it is not
  escaped: for the ruler, whose fields contain neither a line feed nor a comma, the name
  is followed by two double quotes, the quoted field never closes, the row reads back as
  two fields, and there is no Status column.
\<close>

theorem csv_export_quote_in_name:
  "CHR 0x0A \<notin> set (name ruler) \<and> CHR '','' \<notin> set (name ruler)
   \<and> plain_field (sku ruler) \<and> plain_field (category ruler)
   \<and> plain_field (whole_price_text (price ruler))
   \<and> csv_rows (csvContent whole_price_text [ruler]) ! 1
        = ''SUP007,'' @ [CHR 0x22] @ ''Ruler 12'' @ [CHR 0x22, CHR 0x22] @ '',Supplies,150,40,In Stock''
   \<and> csv_fields (csv_rows (csvContent whole_price_text [ruler]) ! 1)
        = [''SUP007'', ''Ruler 12'' @ [CHR 0x22] @ '',Supplies,150,40,In Stock'']
   \<and> csv_column 5 (csv_rows (csvContent whole_price_text [ruler]) ! 1) = None
   \<and> getStatusText_reports (stock_quantity ruler) = ''In Stock''"
  by (simp add: ruler_def plain_field_def whole_price_text_def number_toString_def nat_digits.simps
      digit_char_def csv_rows_def csvContent_def export_row_def export_headers_def
      csv_fields_def csv_column_def getStatusText_reports_def)

text \<open>The three seeded products; the third has a comma in its name.\<close>

theorem csv_export_rows_and_status_witness:
  "plain_field (sku seed_A3) \<and> plain_field (category seed_A3)
   \<and> plain_field (whole_price_text (price seed_A3))
   \<and> CHR 0x0A \<notin> set (name seed_A3) \<and> CHR 0x22 \<notin> set (name seed_A3)
   \<and> CHR '','' \<in> set (name seed_A3)
   \<and> length (csv_rows (csvContent whole_price_text [seed_A1, seed_A2, seed_A3])) = 4
   \<and> csv_column 5 (csv_rows (csvContent whole_price_text [seed_A1, seed_A2, seed_A3]) ! 3)
        = Some ''In Stock''"
proof -
  have h: "\<forall>p\<in>set [seed_A1, seed_A2, seed_A3]. plain_field (sku p) \<and> plain_field (category p)
       \<and> plain_field (whole_price_text (price p))
       \<and> CHR 0x0A \<notin> set (name p) \<and> CHR 0x22 \<notin> set (name p)"
    by (simp add: seed_A1_def seed_A2_def seed_A3_def plain_field_def whole_price_text_def
        number_toString_def nat_digits.simps digit_char_def)
  have g: "getStatusText_reports (stock_quantity seed_A3) = ''In Stock''"
    by (simp add: seed_A3_def getStatusText_reports_def)
  from csv_export_rows_and_status[OF h]
  have n: "length (csv_rows (csvContent whole_price_text [seed_A1, seed_A2, seed_A3]))
             = 1 + length [seed_A1, seed_A2, seed_A3]"
    and a: "\<forall>i<length [seed_A1, seed_A2, seed_A3].
               csv_column 5 (csv_rows (csvContent whole_price_text [seed_A1, seed_A2, seed_A3]) ! Suc i)
                 = Some (getStatusText_reports (stock_quantity ([seed_A1, seed_A2, seed_A3] ! i)))"
    by blast+
  from a[rule_format, of 2] g
  have "csv_column 5 (csv_rows (csvContent whole_price_text [seed_A1, seed_A2, seed_A3]) ! 3)
          = Some ''In Stock''"
    by (simp add: numeral_3_eq_3)
  moreover have "CHR '','' \<in> set (name seed_A3)"
    by (simp add: seed_A3_def)
  ultimately show ?thesis using h n by simp
qed

section \<open>Properties of the listing operation\<close>

lemma occurs_in_sublist: "occurs_in t s = sublist t s"
  by (induction s) (simp_all add: sublist_Cons_right)

text \<open>
  C8: for every dataset and every combination of filters the listing returns exactly the
  products that satisfy all supplied predicates at once, in the order of the dataset;
  a non-empty search text matches a product when it occurs, ignoring case, as a
  substring of the name, the sku or the description.
\<close>

theorem list_products_exact:
  "list_products f store =
     filter (\<lambda>p.
        (filter_search f \<noteq> [] \<longrightarrow>
           (\<exists>field \<in> {name p, sku p} \<union> set_option (description p).
              sublist (toLowerCase (filter_search f)) (toLowerCase field)))
        \<and> (filter_category f \<noteq> [] \<longrightarrow> category p = filter_category f)
        \<and> (filter_status f \<noteq> [] \<longrightarrow> stock_status (stock_quantity p) = filter_status f)) store"
proof -
  have m: "search_matches t p \<longleftrightarrow>
       (\<exists>field \<in> {name p, sku p} \<union> set_option (description p).
          sublist (toLowerCase t) (toLowerCase field))" for t p
    by (cases "description p") (auto simp: search_matches_def Let_def occurs_in_sublist)
  show ?thesis
    unfolding list_products_def Let_def
    by (auto simp: m intro!: filter_cong)
qed

text \<open>Searching \<^verbatim>\<open>PAPER\<close> among the low-stock products of the seeded dataset.\<close>

theorem list_products_exact_witness:
  "filter_search \<lparr>filter_search = ''PAPER'', filter_category = [], filter_status = ''low-stock''\<rparr> \<noteq> []
   \<and> filter_status \<lparr>filter_search = ''PAPER'', filter_category = [], filter_status = ''low-stock''\<rparr> \<noteq> []
   \<and> filter (\<lambda>p.
        (\<exists>field \<in> {name p, sku p} \<union> set_option (description p).
              sublist (toLowerCase ''PAPER'') (toLowerCase field))
        \<and> stock_status (stock_quantity p) = ''low-stock'') [seed_A1, seed_A2, seed_A3]
      = [seed_A2]"
proof -
  have e: "list_products \<lparr>filter_search = ''PAPER'', filter_category = [], filter_status = ''low-stock''\<rparr>
             [seed_A1, seed_A2, seed_A3] = [seed_A2]"
    by (simp add: list_products_def search_matches_def toLowerCase_def toLowerCase_char_def
        stock_status_def seed_A1_def seed_A2_def seed_A3_def Let_def)
  from list_products_exact[of "\<lparr>filter_search = ''PAPER'', filter_category = [], filter_status = ''low-stock''\<rparr>"
      "[seed_A1, seed_A2, seed_A3]"] e
  show ?thesis by simp
qed

text \<open>The example scenario of the specification.\<close>

lemma example_scenario:
  "list_products \<lparr>filter_search = [], filter_category = ''Electronics'', filter_status = []\<rparr>
       [seed_A1, seed_A2, seed_A3] = [seed_A1, seed_A3]"
  "list_products \<lparr>filter_search = [], filter_category = [], filter_status = ''low-stock''\<rparr>
       [seed_A1, seed_A2, seed_A3] = [seed_A2]"
  by (simp_all add: list_products_def stock_status_def seed_A1_def seed_A2_def seed_A3_def)

end
